theory Spec2Isabelle
  imports Main "HOL-Library.Word" "HOL-Library.Multiset"
begin

section \<open>The SmartBuildingEnergyFHE contract\<close>

text \<open>
  A shallow embedding of \<^verbatim>\<open>src/contracts/SmartBuildingEnergyFHE.sol\<close>. A transaction is a
  function from the contract's storage to either an error (the transaction reverts and the
  storage stays as it was) or the storage after the call.
\<close>

subsection \<open>Machine types\<close>

type_synonym u256 = "256 word"
type_synonym u32 = "32 word"
type_synonym address = "160 word"

subsection \<open>The FHE library\<close>

text \<open>
  The contract imports \<^verbatim>\<open>@fhevm/solidity/lib/FHE.sol\<close>, which is not part of the sources.
  The glossary of the spec describes a ciphertext handle as an opaque reference to an
  encrypted value that supports addition without decryption, such that decrypting a sum
  gives the sum of the plaintexts.
\<close>

text \<open>
  Modelled from the spec: the type \<^verbatim>\<open>euint32\<close> of the FHE library. A handle is modelled by
  the 32-bit plaintext it decrypts to; \<open>Uninitialized\<close> is the zero handle, which is what a
  storage slot that was never written holds.
\<close>

datatype euint32 = Uninitialized | Enc u32

text \<open>
  Modelled from the spec: \<^verbatim>\<open>FHE.isInitialized\<close> of the FHE library, true of every handle but
  the zero handle.
\<close>

definition FHE_isInitialized :: "euint32 \<Rightarrow> bool" where
  "FHE_isInitialized v = (v \<noteq> Uninitialized)"

text \<open>
  Modelled from the spec: \<^verbatim>\<open>FHE.asEuint32\<close> of the FHE library, the encryption of a
  plaintext.
\<close>

definition FHE_asEuint32 :: "u32 \<Rightarrow> euint32" where
  "FHE_asEuint32 v = Enc v"

text \<open>The plaintext behind a handle; the zero handle counts as 0.\<close>

definition plain :: "euint32 \<Rightarrow> u32" where
  "plain v = (case v of Uninitialized \<Rightarrow> 0 | Enc x \<Rightarrow> x)"

text \<open>
  Modelled from the spec: \<^verbatim>\<open>FHE.add\<close> of the FHE library, the homomorphic addition: the
  result decrypts to the sum of the two plaintexts, in 32-bit arithmetic (modulo \<open>2 ^ 32\<close>).
\<close>

definition FHE_add :: "euint32 \<Rightarrow> euint32 \<Rightarrow> euint32" where
  "FHE_add a b = Enc (plain a + plain b)"

subsection \<open>Storage\<close>

record EncryptedEnergyData =
  id_e :: u256
  encryptedTenantUsage :: euint32
  encryptedTimestamp :: euint32
  encryptedSystemLoad :: euint32
  timestamp :: u256

record DecryptedEnergyData =
  tenantUsage :: u32
  systemLoad :: u32
  isRevealed :: bool

datatype event =
    EnergyDataSubmitted u256 u256
  | DecryptionRequested u256
  | EnergyDataDecrypted u256

text \<open>
  A Solidity mapping is total: a key that was never written reads as the zero value of
  the value type. The field \<open>events\<close> is the log of the events emitted so far.
\<close>

record contract =
  dataCount :: u256
  encryptedData :: "u256 \<Rightarrow> EncryptedEnergyData"
  decryptedData :: "u256 \<Rightarrow> DecryptedEnergyData"
  encryptedLoadSum :: "string \<Rightarrow> euint32"
  systemList :: "string list"
  requestToDataId :: "u256 \<Rightarrow> u256"
  events :: "event list"

definition zeroEncrypted :: EncryptedEnergyData where
  "zeroEncrypted = \<lparr>id_e = 0, encryptedTenantUsage = Uninitialized,
     encryptedTimestamp = Uninitialized, encryptedSystemLoad = Uninitialized, timestamp = 0\<rparr>"

definition zeroDecrypted :: DecryptedEnergyData where
  "zeroDecrypted = \<lparr>tenantUsage = 0, systemLoad = 0, isRevealed = False\<rparr>"

definition init :: contract where
  "init = \<lparr>dataCount = 0, encryptedData = (\<lambda>_. zeroEncrypted),
     decryptedData = (\<lambda>_. zeroDecrypted), encryptedLoadSum = (\<lambda>_. Uninitialized),
     systemList = [], requestToDataId = (\<lambda>_. 0), events = []\<rparr>"

subsection \<open>Errors\<close>

text \<open>
  \<open>Require m\<close> is a failed \<^verbatim>\<open>require(_, m)\<close> or a \<^verbatim>\<open>revert(m)\<close>; \<open>Panic\<close> carries the
  Solidity panic code (\<open>0x11\<close> arithmetic overflow, \<open>0x32\<close> array index out of bounds);
  \<open>AbiDecodeFailure\<close> is \<^verbatim>\<open>abi.decode\<close> reverting on bytes of the wrong shape;
  \<open>InvalidSignatures\<close> is \<^verbatim>\<open>FHE.checkSignatures\<close> reverting.
\<close>

datatype error = Require string | Panic nat | AbiDecodeFailure | InvalidSignatures

text \<open>The names the spec gives to the failures of the source.\<close>

abbreviation AlreadyRevealed :: error where "AlreadyRevealed \<equiv> Require ''Already decrypted''"
abbreviation UnknownRequest :: error where "UnknownRequest \<equiv> Require ''Invalid request''"
abbreviation UnknownSystem :: error where "UnknownSystem \<equiv> Require ''System not found''"
abbreviation InvalidProof :: error where "InvalidProof \<equiv> InvalidSignatures"

subsection \<open>Operations\<close>

text \<open>
  \<^verbatim>\<open>dataCount += 1\<close> is checked arithmetic (Solidity 0.8): it panics at the largest value.
  \<open>block_timestamp\<close> is \<^verbatim>\<open>block.timestamp\<close>.
\<close>

definition submitEncryptedEnergyData ::
  "euint32 \<Rightarrow> euint32 \<Rightarrow> euint32 \<Rightarrow> u256 \<Rightarrow> contract \<Rightarrow> error + contract" where
  "submitEncryptedEnergyData usage tstamp load block_timestamp s =
     (if dataCount s = - 1 then Inl (Panic 0x11)
      else
        let newId = dataCount s + 1 in
        Inr (s\<lparr>dataCount := newId,
               encryptedData := (encryptedData s)(newId :=
                 \<lparr>id_e = newId, encryptedTenantUsage = usage, encryptedTimestamp = tstamp,
                  encryptedSystemLoad = load, timestamp = block_timestamp\<rparr>),
               decryptedData := (decryptedData s)(newId :=
                 \<lparr>tenantUsage = 0, systemLoad = 0, isRevealed = False\<rparr>),
               events := events s @ [EnergyDataSubmitted newId block_timestamp]\<rparr>))"

text \<open>The modifier \<^verbatim>\<open>onlyTenant(dataId)\<close>: its body is \<^verbatim>\<open>_;\<close> alone.\<close>

definition onlyTenant ::
  "address \<Rightarrow> u256 \<Rightarrow> (contract \<Rightarrow> error + contract) \<Rightarrow> contract \<Rightarrow> error + contract" where
  "onlyTenant msg_sender dataId body s = body s"

text \<open>
  \<open>reqId\<close> is what \<^verbatim>\<open>FHE.requestDecryption\<close> returns for the three handles of the entry;
  the decryption oracle is outside the contract, so its answer is an input of the call.
\<close>

definition requestEnergyDataDecryption ::
  "address \<Rightarrow> u256 \<Rightarrow> u256 \<Rightarrow> contract \<Rightarrow> error + contract" where
  "requestEnergyDataDecryption msg_sender dataId reqId =
     onlyTenant msg_sender dataId (\<lambda>s.
       if isRevealed (decryptedData s dataId) then Inl (Require ''Already decrypted'')
       else Inr (s\<lparr>requestToDataId := (requestToDataId s)(reqId := dataId),
                   events := events s @ [DecryptionRequested dataId]\<rparr>))"

text \<open>
  The callback. \<open>cleartexts\<close> is the result of \<^verbatim>\<open>abi.decode(cleartexts, (uint32[]))\<close>, \<open>None\<close>
  when the bytes do not decode; \<open>sigOK\<close> says whether
  \<^verbatim>\<open>FHE.checkSignatures(requestId, cleartexts, proof)\<close> returns (it reverts otherwise).
  \<^verbatim>\<open>results[0]\<close> and \<^verbatim>\<open>results[2]\<close> panic on an array that is too short.
\<close>

definition decryptEnergyData ::
  "u256 \<Rightarrow> u32 list option \<Rightarrow> bool \<Rightarrow> contract \<Rightarrow> error + contract" where
  "decryptEnergyData requestId cleartexts sigOK s =
     (let dataId = requestToDataId s requestId in
      if dataId = 0 then Inl (Require ''Invalid request'')
      else if isRevealed (decryptedData s dataId) then Inl (Require ''Already decrypted'')
      else if \<not> sigOK then Inl InvalidSignatures
      else case cleartexts of
        None \<Rightarrow> Inl AbiDecodeFailure
      | Some results \<Rightarrow>
          if length results \<le> 2 then Inl (Panic 0x32)
          else
            let dData = (decryptedData s dataId)
                  \<lparr>tenantUsage := results ! 0, systemLoad := results ! 2, isRevealed := True\<rparr>;
                systemKey = ''central_system'';
                uninit = \<not> FHE_isInitialized (encryptedLoadSum s systemKey);
                sum0 = (if uninit then FHE_asEuint32 0 else encryptedLoadSum s systemKey);
                list' = (if uninit then systemList s @ [systemKey] else systemList s)
            in Inr (s\<lparr>decryptedData := (decryptedData s)(dataId := dData),
                      encryptedLoadSum := (encryptedLoadSum s)(systemKey :=
                        FHE_add sum0 (FHE_asEuint32 (results ! 2))),
                      systemList := list',
                      events := events s @ [EnergyDataDecrypted dataId]\<rparr>))"

definition getDecryptedEnergyData :: "u256 \<Rightarrow> contract \<Rightarrow> error + (u32 \<times> u32 \<times> bool)" where
  "getDecryptedEnergyData dataId s =
     (let dataEntry = decryptedData s dataId
      in Inr (tenantUsage dataEntry, systemLoad dataEntry, isRevealed dataEntry))"

definition getEncryptedLoadSum :: "string \<Rightarrow> contract \<Rightarrow> error + euint32" where
  "getEncryptedLoadSum systemKey s = Inr (encryptedLoadSum s systemKey)"

text \<open>
  \<open>keccak256\<close> stands for \<^verbatim>\<open>bytes32ToUint(keccak256(abi.encodePacked(_)))\<close>: the hash is a
  parameter of the operations that use it.
\<close>

definition requestLoadSumDecryption ::
  "(string \<Rightarrow> u256) \<Rightarrow> string \<Rightarrow> u256 \<Rightarrow> contract \<Rightarrow> error + contract" where
  "requestLoadSumDecryption keccak256 systemKey reqId s =
     (let sumValue = encryptedLoadSum s systemKey in
      if \<not> FHE_isInitialized sumValue then Inl (Require ''System not found'')
      else Inr (s\<lparr>requestToDataId := (requestToDataId s)(reqId := keccak256 systemKey)\<rparr>))"

text \<open>The loop of \<^verbatim>\<open>getSystemFromHash\<close> over \<^verbatim>\<open>systemList\<close>, from index 0.\<close>

fun scanSystemList :: "(string \<Rightarrow> u256) \<Rightarrow> string list \<Rightarrow> u256 \<Rightarrow> error + string" where
  "scanSystemList keccak256 [] hash = Inl (Require ''System not found'')"
| "scanSystemList keccak256 (k # ks) hash =
     (if keccak256 k = hash then Inr k else scanSystemList keccak256 ks hash)"

definition getSystemFromHash :: "(string \<Rightarrow> u256) \<Rightarrow> u256 \<Rightarrow> contract \<Rightarrow> error + string" where
  "getSystemFromHash keccak256 hash s = scanSystemList keccak256 (systemList s) hash"

text \<open>
  The callback for the sum. \<open>cleartexts\<close> is the result of \<^verbatim>\<open>abi.decode(cleartexts, (uint32))\<close>.
  The decoded \<^verbatim>\<open>sum\<close> (here \<open>sumValue\<close>) is a local variable of the source; nothing is done with it.
\<close>

definition decryptLoadSum ::
  "(string \<Rightarrow> u256) \<Rightarrow> u256 \<Rightarrow> u32 option \<Rightarrow> bool \<Rightarrow> contract \<Rightarrow> error + contract" where
  "decryptLoadSum keccak256 requestId cleartexts sigOK s =
     (let systemHash = requestToDataId s requestId in
      case getSystemFromHash keccak256 systemHash s of
        Inl e \<Rightarrow> Inl e
      | Inr systemKey \<Rightarrow>
          if \<not> sigOK then Inl InvalidSignatures
          else (case cleartexts of
                  None \<Rightarrow> Inl AbiDecodeFailure
                | Some sumValue \<Rightarrow> Inr s))"

subsection \<open>Transactions and traces\<close>

text \<open>
  The calls a client or the oracle can make, under the names of the spec:
  \<open>Submit\<close> is \<^verbatim>\<open>submitEncryptedEnergyData\<close>, \<open>RequestReveal\<close> is \<^verbatim>\<open>requestEnergyDataDecryption\<close>
  (with the caller and the oracle's request id), \<open>RevealCallback\<close> is \<^verbatim>\<open>decryptEnergyData\<close>,
  \<open>GetReveal\<close> is \<^verbatim>\<open>getDecryptedEnergyData\<close>, \<open>GetSum\<close> is \<^verbatim>\<open>getEncryptedLoadSum\<close>,
  \<open>RequestSumReveal\<close> is \<^verbatim>\<open>requestLoadSumDecryption\<close> and \<open>SumRevealCallback\<close> is
  \<^verbatim>\<open>decryptLoadSum\<close>.
\<close>

datatype op =
    Submit euint32 euint32 euint32 u256
  | RequestReveal address u256 u256
  | RevealCallback u256 "u32 list option" bool
  | GetReveal u256
  | GetSum string
  | RequestSumReveal string u256
  | SumRevealCallback u256 "u32 option" bool

fun call :: "(string \<Rightarrow> u256) \<Rightarrow> op \<Rightarrow> contract \<Rightarrow> error + contract" where
  "call H (Submit u t l ts) s = submitEncryptedEnergyData u t l ts s"
| "call H (RequestReveal a i r) s = requestEnergyDataDecryption a i r s"
| "call H (RevealCallback r c ok) s = decryptEnergyData r c ok s"
| "call H (GetReveal i) s = (case getDecryptedEnergyData i s of Inl e \<Rightarrow> Inl e | Inr _ \<Rightarrow> Inr s)"
| "call H (GetSum k) s = (case getEncryptedLoadSum k s of Inl e \<Rightarrow> Inl e | Inr _ \<Rightarrow> Inr s)"
| "call H (RequestSumReveal k r) s = requestLoadSumDecryption H k r s"
| "call H (SumRevealCallback r c ok) s = decryptLoadSum H r c ok s"

text \<open>A transaction that reverts leaves the storage as it was.\<close>

definition step :: "(string \<Rightarrow> u256) \<Rightarrow> op \<Rightarrow> contract \<Rightarrow> contract" where
  "step H x s = (case call H x s of Inl _ \<Rightarrow> s | Inr s' \<Rightarrow> s')"

fun exec :: "(string \<Rightarrow> u256) \<Rightarrow> op list \<Rightarrow> contract \<Rightarrow> contract" where
  "exec H [] s = s"
| "exec H (x # xs) s = exec H xs (step H x s)"

text \<open>
  A hash function for the closed examples: it gives every key the Keccak-256 digest of the
  14 bytes \<^verbatim>\<open>central_system\<close>, the only key the contract ever registers.
\<close>

definition keccak_cs :: "string \<Rightarrow> u256" where
  "keccak_cs k = 0xc7a28486dc4532e1eb2693e9d61fd79e72e06881a72296510c11d0666c6bda31"

subsection \<open>Observations on traces\<close>

text \<open>The ids announced by the \<^verbatim>\<open>EnergyDataSubmitted\<close> events of a log, in order.\<close>

fun submittedIds :: "event list \<Rightarrow> u256 list" where
  "submittedIds [] = []"
| "submittedIds (EnergyDataSubmitted i t # es) = i # submittedIds es"
| "submittedIds (_ # es) = submittedIds es"

fun isSubmit :: "op \<Rightarrow> bool" where
  "isSubmit (Submit u t l ts) = True"
| "isSubmit _ = False"

text \<open>
  \<open>reveals i x s\<close>: in storage \<open>s\<close> the call \<open>x\<close> is a \<^verbatim>\<open>decryptEnergyData\<close> that succeeds
  for a request mapped to \<open>i\<close>. \<open>reveal_count\<close> counts such calls along a trace.
\<close>

fun reveals :: "u256 \<Rightarrow> op \<Rightarrow> contract \<Rightarrow> bool" where
  "reveals i (RevealCallback r c ok) s =
     (requestToDataId s r = i \<and> \<not> isl (decryptEnergyData r c ok s))"
| "reveals i _ s = False"

fun reveal_count :: "(string \<Rightarrow> u256) \<Rightarrow> u256 \<Rightarrow> op list \<Rightarrow> contract \<Rightarrow> nat" where
  "reveal_count H i [] s = 0"
| "reveal_count H i (x # xs) s =
     (if reveals i x s then 1 else 0) + reveal_count H i xs (step H x s)"

text \<open>
  The load a successful \<^verbatim>\<open>decryptEnergyData\<close> writes into the reveal record of its
  target, and the loads revealed along a trace, in the order of the callbacks.
\<close>

fun revealed_load :: "op \<Rightarrow> contract \<Rightarrow> u32 option" where
  "revealed_load (RevealCallback r c ok) s =
     (case decryptEnergyData r c ok s of
        Inl _ \<Rightarrow> None
      | Inr s' \<Rightarrow> Some (systemLoad (decryptedData s' (requestToDataId s r))))"
| "revealed_load _ s = None"

fun revealed_loads :: "(string \<Rightarrow> u256) \<Rightarrow> op list \<Rightarrow> contract \<Rightarrow> u32 list" where
  "revealed_loads H [] s = []"
| "revealed_loads H (x # xs) s =
     (case revealed_load x s of None \<Rightarrow> [] | Some v \<Rightarrow> [v]) @ revealed_loads H xs (step H x s)"

text \<open>
  \<open>recorded H q xs s\<close>: along the trace \<open>xs\<close> from \<open>s\<close> some successful
  \<^verbatim>\<open>requestEnergyDataDecryption\<close> or \<^verbatim>\<open>requestLoadSumDecryption\<close> got the request id \<open>q\<close>
  from the oracle.
\<close>

fun records :: "op \<Rightarrow> u256 \<Rightarrow> bool" where
  "records (RequestReveal a i r) q = (r = q)"
| "records (RequestSumReveal k r) q = (r = q)"
| "records _ q = False"

fun recorded :: "(string \<Rightarrow> u256) \<Rightarrow> u256 \<Rightarrow> op list \<Rightarrow> contract \<Rightarrow> bool" where
  "recorded H q [] s = False"
| "recorded H q (x # xs) s =
     ((records x q \<and> \<not> isl (call H x s)) \<or> recorded H q xs (step H x s))"

text \<open>The invariant behind the numbering of submissions.\<close>

definition ids_ok :: "contract \<Rightarrow> bool" where
  "ids_ok s = (map unat (submittedIds (events s)) = [1..<Suc (unat (dataCount s))])"

subsection \<open>Scenarios\<close>

text \<open>
  One submission whose reveal was requested by address 7 (the oracle answered with
  request id 0); the same after the callback delivered the plaintexts 3, 4, 5 with a valid
  proof; and the same after the sum of \<^verbatim>\<open>central_system\<close> was requested (request id 1).
\<close>

definition s_requested :: contract where
  "s_requested = exec keccak_cs [Submit (Enc 3) (Enc 4) (Enc 5) 100, RequestReveal 7 1 0] init"

definition s_revealed :: contract where
  "s_revealed = step keccak_cs (RevealCallback 0 (Some [3, 4, 5]) True) s_requested"

definition s_sum_requested :: contract where
  "s_sum_requested = step keccak_cs (RequestSumReveal ''central_system'' 1) s_revealed"

section \<open>Basic facts\<close>

lemmas op_defs = submitEncryptedEnergyData_def requestEnergyDataDecryption_def onlyTenant_def
  decryptEnergyData_def getDecryptedEnergyData_def getEncryptedLoadSum_def
  requestLoadSumDecryption_def decryptLoadSum_def getSystemFromHash_def

lemma decryptLoadSum_same: "decryptLoadSum H r c ok s = Inr s' \<Longrightarrow> s' = s"
  by (auto simp: decryptLoadSum_def Let_def split: sum.splits if_splits option.splits)

text \<open>What one transaction does to the reveal record of \<open>i\<close>.\<close>

lemma step_decryptedData:
  "decryptedData (step H x s) i =
     (case x of
        Submit u t l ts \<Rightarrow>
          (if dataCount s \<noteq> - 1 \<and> i = dataCount s + 1 then zeroDecrypted else decryptedData s i)
      | RevealCallback r c ok \<Rightarrow>
          (case call H x s of Inl _ \<Rightarrow> decryptedData s i
           | Inr _ \<Rightarrow> if i = requestToDataId s r
               then \<lparr>tenantUsage = the c ! 0, systemLoad = the c ! 2, isRevealed = True\<rparr>
               else decryptedData s i)
      | _ \<Rightarrow> decryptedData s i)"
  by (cases x)
     (auto simp: step_def op_defs Let_def zeroDecrypted_def
           split: sum.splits if_splits option.splits dest: decryptLoadSum_same)

text \<open>
  After any trace from the initial storage a record that is not revealed holds zeros.
\<close>

lemma step_unrevealed_zero:
  assumes "\<And>j. \<not> isRevealed (decryptedData s j) \<Longrightarrow> decryptedData s j = zeroDecrypted"
    and "\<not> isRevealed (decryptedData (step H x s) i)"
  shows "decryptedData (step H x s) i = zeroDecrypted"
  using assms(2) assms(1) [of i]
  by (cases x) (auto simp: step_decryptedData split: sum.splits if_splits)

lemma exec_unrevealed_zero:
  "(\<And>j. \<not> isRevealed (decryptedData s j) \<Longrightarrow> decryptedData s j = zeroDecrypted) \<Longrightarrow>
   \<not> isRevealed (decryptedData (exec H xs s) i) \<Longrightarrow>
   decryptedData (exec H xs s) i = zeroDecrypted"
proof (induction xs arbitrary: s)
  case Nil
  then show ?case by simp
next
  case (Cons x xs)
  have "decryptedData (exec H xs (step H x s)) i = zeroDecrypted"
  proof (rule Cons.IH)
    fix j
    assume "\<not> isRevealed (decryptedData (step H x s) j)"
    with Cons.prems(1) show "decryptedData (step H x s) j = zeroDecrypted"
      by (rule step_unrevealed_zero)
  next
    from Cons.prems(2) show "\<not> isRevealed (decryptedData (exec H xs (step H x s)) i)"
      by simp
  qed
  then show ?case by simp
qed

lemma unrevealed_zero:
  "\<not> isRevealed (decryptedData (exec H xs init) i) \<Longrightarrow>
   decryptedData (exec H xs init) i = zeroDecrypted"
  by (rule exec_unrevealed_zero) (simp_all add: init_def zeroDecrypted_def)

subsection \<open>Effects of one transaction and of a trace\<close>

lemma submittedIds_append:
  "submittedIds (es @ fs) = submittedIds es @ submittedIds fs"
  by (induction es rule: submittedIds.induct) auto

lemma word_succ_unat: "(x :: u256) \<noteq> - 1 \<Longrightarrow> unat (x + 1) = Suc (unat x)"
proof -
  assume "x \<noteq> - 1"
  then have nz: "x + 1 \<noteq> 0" using max_word_wrap by blast
  from unat_minus_one[OF nz] have "unat x = unat (x + 1) - 1" by simp
  moreover from nz have "unat (x + 1) \<noteq> 0" by (simp add: unat_eq_0)
  ultimately show ?thesis by simp
qed

lemma unat_lt_max: "unat (x :: u256) + 1 < 2 ^ 256 \<Longrightarrow> x \<noteq> - 1"
proof
  assume a: "unat x + 1 < 2 ^ 256" and e: "x = - 1"
  have "unat x + unat (1 :: u256) < 2 ^ LENGTH(256)" using a by simp
  then have "unat (x + 1) = unat x + unat (1 :: u256)" by (simp only: unat_add_lem)
  with e show False by simp
qed

lemma le_not_succ: "(i :: u256) \<le> x \<Longrightarrow> x \<noteq> - 1 \<Longrightarrow> i \<noteq> x + 1"
  by (auto simp: word_le_nat_alt word_succ_unat)

lemma le_succ: "(i :: u256) \<le> x \<Longrightarrow> x \<noteq> - 1 \<Longrightarrow> i \<le> x + 1"
  by (auto simp: word_le_nat_alt word_succ_unat)

lemma step_dataCount:
  "dataCount (step H x s) = (if isSubmit x \<and> dataCount s \<noteq> - 1 then dataCount s + 1 else dataCount s)"
  by (cases x)
     (auto simp: step_def op_defs Let_def
           split: sum.splits if_splits option.splits dest: decryptLoadSum_same)

lemma step_events_ids:
  "submittedIds (events (step H x s)) =
     (if isSubmit x \<and> dataCount s \<noteq> - 1 then submittedIds (events s) @ [dataCount s + 1]
      else submittedIds (events s))"
  by (cases x)
     (auto simp: step_def op_defs Let_def submittedIds_append
           split: sum.splits if_splits option.splits dest: decryptLoadSum_same)

lemma ids_ok_step: "ids_ok s \<Longrightarrow> ids_ok (step H x s)"
  by (auto simp: ids_ok_def step_events_ids step_dataCount word_succ_unat)

lemma ids_ok_exec: "ids_ok s \<Longrightarrow> ids_ok (exec H xs s)"
  by (induction xs arbitrary: s) (auto simp: ids_ok_step)

lemma dataCount_exec:
  "unat (dataCount s) + length (filter isSubmit xs) < 2 ^ 256 \<Longrightarrow>
   unat (dataCount (exec H xs s)) = unat (dataCount s) + length (filter isSubmit xs)"
proof (induction xs arbitrary: s)
  case Nil
  then show ?case by simp
next
  case (Cons x xs)
  show ?case
  proof (cases "isSubmit x")
    case True
    with Cons.prems have "unat (dataCount s) + 1 < 2 ^ 256" by simp
    then have ne: "dataCount s \<noteq> - 1"
      by (rule unat_lt_max)
    have "unat (dataCount (step H x s)) = Suc (unat (dataCount s))"
      using True ne by (simp add: step_dataCount word_succ_unat)
    with Cons.IH[of "step H x s"] Cons.prems True show ?thesis by simp
  next
    case False
    with Cons.IH[of "step H x s"] Cons.prems show ?thesis by (simp add: step_dataCount)
  qed
qed

lemma reveals_flips:
  "reveals i x s \<Longrightarrow>
     \<not> isRevealed (decryptedData s i) \<and> isRevealed (decryptedData (step H x s) i)"
proof (cases x)
  case (RevealCallback r c ok)
  assume "reveals i x s"
  with RevealCallback have m: "requestToDataId s r = i" and ok: "\<not> isl (decryptEnergyData r c ok s)"
    by simp_all
  from ok have u: "\<not> isRevealed (decryptedData s (requestToDataId s r))"
    by (auto simp: decryptEnergyData_def Let_def split: if_splits)
  from ok obtain s' where s': "decryptEnergyData r c ok s = Inr s'"
    by (cases "decryptEnergyData r c ok s") auto
  then have "isRevealed (decryptedData s' (requestToDataId s r))"
    by (auto simp: decryptEnergyData_def Let_def split: if_splits option.splits)
  with s' u m RevealCallback show ?thesis by (simp add: step_def)
qed simp_all

lemma step_keeps_record:
  "i \<le> dataCount s \<Longrightarrow> \<not> reveals i x s \<Longrightarrow> decryptedData (step H x s) i = decryptedData s i"
proof (cases x)
  case (Submit u t l ts)
  assume "i \<le> dataCount s"
  then have "dataCount s \<noteq> - 1 \<Longrightarrow> i \<noteq> dataCount s + 1" by (rule le_not_succ)
  with Submit show ?thesis by (auto simp: step_decryptedData)
next
  case (RevealCallback r c ok)
  assume "\<not> reveals i x s"
  with RevealCallback show ?thesis
    by (auto simp: step_decryptedData split: sum.splits)
qed (simp_all add: step_decryptedData)

lemma step_keeps_submitted: "i \<le> dataCount s \<Longrightarrow> i \<le> dataCount (step H x s)"
  by (simp add: step_dataCount le_succ)

lemma revealed_stays:
  "i \<le> dataCount s \<Longrightarrow> isRevealed (decryptedData s i) \<Longrightarrow>
   reveal_count H i xs s = 0 \<and> decryptedData (exec H xs s) i = decryptedData s i"
proof (induction xs arbitrary: s)
  case Nil
  then show ?case by simp
next
  case (Cons x xs)
  have nr: "\<not> reveals i x s"
    using reveals_flips [of i x s H] Cons.prems(2) by blast
  have e: "decryptedData (step H x s) i = decryptedData s i"
    using Cons.prems(1) nr by (rule step_keeps_record)
  have r: "isRevealed (decryptedData (step H x s) i)"
    unfolding e by (rule Cons.prems(2))
  have sub: "i \<le> dataCount (step H x s)"
    using Cons.prems(1) by (rule step_keeps_submitted)
  from Cons.IH [OF sub r]
  have c: "reveal_count H i xs (step H x s) = 0"
    and d: "decryptedData (exec H xs (step H x s)) i = decryptedData (step H x s) i"
    by blast+
  have "reveal_count H i (x # xs) s = 0" using nr c by simp
  moreover have "decryptedData (exec H (x # xs) s) i = decryptedData s i"
    using d e by simp
  ultimately show ?case by blast
qed

lemma unrevealed_counts:
  "i \<le> dataCount s \<Longrightarrow> \<not> isRevealed (decryptedData s i) \<Longrightarrow>
   reveal_count H i xs s = (if isRevealed (decryptedData (exec H xs s) i) then 1 else 0)
   \<and> (reveal_count H i xs s = 0 \<longrightarrow> decryptedData (exec H xs s) i = decryptedData s i)"
proof (induction xs arbitrary: s)
  case Nil
  then show ?case by simp
next
  case (Cons x xs)
  have sub: "i \<le> dataCount (step H x s)"
    using Cons.prems(1) by (rule step_keeps_submitted)
  show ?case
  proof (cases "reveals i x s")
    case True
    from reveals_flips [OF True, of H]
    have r: "isRevealed (decryptedData (step H x s) i)" by blast
    from revealed_stays [OF sub r, of H xs]
    have c: "reveal_count H i xs (step H x s) = 0"
      and d: "decryptedData (exec H xs (step H x s)) i = decryptedData (step H x s) i"
      by blast+
    have "isRevealed (decryptedData (exec H (x # xs) s) i)"
      using r d by simp
    moreover have "reveal_count H i (x # xs) s = 1" using True c by simp
    ultimately show ?thesis by simp
  next
    case False
    have e: "decryptedData (step H x s) i = decryptedData s i"
      using Cons.prems(1) False by (rule step_keeps_record)
    have u: "\<not> isRevealed (decryptedData (step H x s) i)"
      unfolding e by (rule Cons.prems(2))
    have k: "reveal_count H i (x # xs) s = reveal_count H i xs (step H x s)"
      using False by simp
    from Cons.IH [OF sub u] show ?thesis
      unfolding k e exec.simps .
  qed
qed

lemma step_loadSum:
  "encryptedLoadSum (step H x s) ''central_system'' =
     (case revealed_load x s of
        None \<Rightarrow> encryptedLoadSum s ''central_system''
      | Some v \<Rightarrow> Enc (plain (encryptedLoadSum s ''central_system'') + v))"
  by (cases x)
     (auto simp: step_def op_defs Let_def FHE_add_def FHE_asEuint32_def FHE_isInitialized_def plain_def
           split: sum.splits if_splits option.splits euint32.splits dest: decryptLoadSum_same)

lemma exec_loadSum:
  "encryptedLoadSum (exec H xs s) ''central_system'' =
     (if revealed_loads H xs s = [] then encryptedLoadSum s ''central_system''
      else Enc (plain (encryptedLoadSum s ''central_system'') + sum_list (revealed_loads H xs s)))"
proof (induction xs arbitrary: s)
  case Nil
  then show ?case by simp
next
  case (Cons x xs)
  show ?case
    by (cases "revealed_load x s")
       (simp_all add: Cons.IH step_loadSum plain_def add.assoc)
qed

lemma step_requestToDataId:
  "\<not> (records x q \<and> \<not> isl (call H x s)) \<Longrightarrow> requestToDataId (step H x s) q = requestToDataId s q"
  by (cases x)
     (auto simp: step_def op_defs Let_def
           split: sum.splits if_splits option.splits dest: decryptLoadSum_same)

lemma exec_requestToDataId:
  "\<not> recorded H q xs s \<Longrightarrow> requestToDataId (exec H xs s) q = requestToDataId s q"
  by (induction xs arbitrary: s) (auto simp: step_requestToDataId)

subsection \<open>The scenarios, evaluated\<close>

lemmas scenario_defs = s_requested_def s_revealed_def s_sum_requested_def keccak_cs_def
  step_def op_defs init_def Let_def zeroDecrypted_def zeroEncrypted_def
  FHE_isInitialized_def FHE_asEuint32_def FHE_add_def plain_def

lemma s_requested_facts:
  "dataCount s_requested = 1"
  "requestToDataId s_requested 0 = 1"
  "decryptedData s_requested 1 = \<lparr>tenantUsage = 0, systemLoad = 0, isRevealed = False\<rparr>"
  by (simp_all add: scenario_defs)

lemma s_revealed_facts:
  "dataCount s_revealed = 1"
  "requestToDataId s_revealed 0 = 1"
  "decryptedData s_revealed 1 = \<lparr>tenantUsage = 3, systemLoad = 5, isRevealed = True\<rparr>"
  "encryptedLoadSum s_revealed ''central_system'' = Enc 5"
  "systemList s_revealed = [''central_system'']"
  by (simp_all add: scenario_defs)

lemma s_sum_requested_facts:
  "requestToDataId s_sum_requested 1 = keccak_cs ''central_system''"
  "requestToDataId s_sum_requested 0 = 1"
  "encryptedLoadSum s_sum_requested ''central_system'' = Enc 5"
  "systemList s_sum_requested = [''central_system'']"
  "decryptedData s_sum_requested (keccak_cs ''central_system'') = zeroDecrypted"
  by (simp_all add: scenario_defs)

text \<open>
  The scenario of the spec: three readings with loads 5, 7 and 9, revealed in arrival
  order, add up to 21. The sum wraps around at \<open>2 ^ 32\<close>.
\<close>

lemma three_readings_scenario:
  "getEncryptedLoadSum ''central_system'' (exec keccak_cs
     [Submit (Enc 1) (Enc 2) (Enc 5) 100, Submit (Enc 1) (Enc 2) (Enc 7) 101,
      Submit (Enc 1) (Enc 2) (Enc 9) 102,
      RequestReveal 7 1 0, RequestReveal 7 2 1, RequestReveal 7 3 2,
      RevealCallback 0 (Some [1, 2, 5]) True, RevealCallback 1 (Some [1, 2, 7]) True,
      RevealCallback 2 (Some [1, 2, 9]) True] init) = Inr (Enc 21)
   \<and> isRevealed (decryptedData (exec keccak_cs
     [Submit (Enc 1) (Enc 2) (Enc 5) 100, Submit (Enc 1) (Enc 2) (Enc 7) 101,
      Submit (Enc 1) (Enc 2) (Enc 9) 102,
      RequestReveal 7 1 0, RequestReveal 7 2 1, RequestReveal 7 3 2,
      RevealCallback 0 (Some [1, 2, 5]) True, RevealCallback 1 (Some [1, 2, 7]) True,
      RevealCallback 2 (Some [1, 2, 9]) True] init) 2)"
  by (simp add: scenario_defs)

lemma load_sum_wraps:
  "getEncryptedLoadSum ''central_system'' (exec keccak_cs
     [RequestReveal 7 1 0, RequestReveal 7 2 1,
      RevealCallback 0 (Some [0, 0, 4294967295]) True, RevealCallback 1 (Some [0, 0, 2]) True] init)
   = Inr (Enc 1)"
  by (simp add: scenario_defs)

text \<open>
  \<^verbatim>\<open>requestEnergyDataDecryption\<close> does not check that the data id was assigned. A record of
  an id that is not assigned yet can therefore be revealed, and the later
  \<^verbatim>\<open>submitEncryptedEnergyData\<close> that assigns the id writes the empty placeholder over it.
\<close>

lemma unassigned_record_reset:
  "isRevealed (decryptedData (exec keccak_cs
      [RequestReveal 7 1 0, RevealCallback 0 (Some [3, 4, 5]) True] init) 1)
   \<and> \<not> isRevealed (decryptedData (exec keccak_cs
      [RequestReveal 7 1 0, RevealCallback 0 (Some [3, 4, 5]) True,
       Submit (Enc 3) (Enc 4) (Enc 5) 100] init) 1)"
  by (simp add: scenario_defs)

section \<open>The claims\<close>

text \<open>
  C1. For every id of a submission (\<open>0 < i\<close> and \<open>i \<le> dataCount s\<close>) and every trace \<open>xs\<close> of
  calls from \<open>s\<close>: the number of successful \<^verbatim>\<open>decryptEnergyData\<close> calls for a request mapped
  to \<open>i\<close> is 1 if \<open>isRevealed\<close> of the record went from false to true along the trace and 0
  otherwise, so the flag flips at most once; without such a call the record is unchanged;
  a record that is revealed stays as it is, flag and plaintexts, whatever is called; and
  a single call that changes the record is a successful \<^verbatim>\<open>decryptEnergyData\<close> for a request
  mapped to \<open>i\<close>, so no submit, request, sum request, sum callback or read changes it.
\<close>

theorem reveal_record_write_once:
  assumes "0 < i" and "i \<le> dataCount s"
  shows "reveal_count H i xs s =
       (if isRevealed (decryptedData (exec H xs s) i) \<and> \<not> isRevealed (decryptedData s i) then 1 else 0)
     \<and> (reveal_count H i xs s = 0 \<longrightarrow> decryptedData (exec H xs s) i = decryptedData s i)
     \<and> (isRevealed (decryptedData s i) \<longrightarrow> decryptedData (exec H xs s) i = decryptedData s i)
     \<and> (decryptedData (step H x s) i \<noteq> decryptedData s i \<longrightarrow> reveals i x s)"
proof (cases "isRevealed (decryptedData s i)")
  case True
  from revealed_stays [OF assms(2) True, of H xs]
  have c: "reveal_count H i xs s = 0"
    and d: "decryptedData (exec H xs s) i = decryptedData s i" by blast+
  have "decryptedData (step H x s) i \<noteq> decryptedData s i \<longrightarrow> reveals i x s"
    using step_keeps_record [OF assms(2), of x H] by blast
  with True c d show ?thesis by simp
next
  case False
  from unrevealed_counts [OF assms(2) False, of H xs]
  have c: "reveal_count H i xs s = (if isRevealed (decryptedData (exec H xs s) i) then 1 else 0)"
    and d: "reveal_count H i xs s = 0 \<longrightarrow> decryptedData (exec H xs s) i = decryptedData s i"
    by blast+
  have "decryptedData (step H x s) i \<noteq> decryptedData s i \<longrightarrow> reveals i x s"
    using step_keeps_record [OF assms(2), of x H] by blast
  with False c d show ?thesis by simp
qed

theorem reveal_record_write_once_witness:
  "(0 :: u256) < 1 \<and> 1 \<le> dataCount s_requested
   \<and> \<not> isRevealed (decryptedData s_requested 1)
   \<and> isRevealed (decryptedData (exec keccak_cs
         [RevealCallback 0 (Some [3, 4, 5]) True, RevealCallback 0 (Some [9, 9, 9]) True,
          GetReveal 1, Submit (Enc 1) (Enc 1) (Enc 1) 101] s_requested) 1)
   \<and> reveal_count keccak_cs 1
         [RevealCallback 0 (Some [3, 4, 5]) True, RevealCallback 0 (Some [9, 9, 9]) True,
          GetReveal 1, Submit (Enc 1) (Enc 1) (Enc 1) 101] s_requested = 1
   \<and> decryptedData (step keccak_cs (RevealCallback 0 (Some [3, 4, 5]) True) s_requested) 1
        \<noteq> decryptedData s_requested 1
   \<and> reveals 1 (RevealCallback 0 (Some [3, 4, 5]) True) s_requested
   \<and> isRevealed (decryptedData s_revealed 1)
   \<and> decryptedData (exec keccak_cs
         [RevealCallback 0 (Some [9, 9, 9]) True, Submit (Enc 1) (Enc 1) (Enc 1) 101] s_revealed) 1
        = decryptedData s_revealed 1"
proof -
  let ?xs = "[RevealCallback 0 (Some [3, 4, 5]) True, RevealCallback 0 (Some [9, 9, 9]) True,
          GetReveal 1, Submit (Enc 1) (Enc 1) (Enc 1) 101]"
  let ?ys = "[RevealCallback 0 (Some [9, 9, 9]) True, Submit (Enc 1) (Enc 1) (Enc 1) 101]"
  let ?x = "RevealCallback 0 (Some [3, 4, 5]) True"
  have h1: "(0 :: u256) < 1" by simp
  have h2: "1 \<le> dataCount s_requested" by (simp add: s_requested_facts)
  have h3: "1 \<le> dataCount s_revealed" by (simp add: s_revealed_facts)
  have u: "\<not> isRevealed (decryptedData s_requested 1)" by (simp add: s_requested_facts)
  have r: "isRevealed (decryptedData (exec keccak_cs ?xs s_requested) 1)"
    by (simp add: scenario_defs)
  have d: "decryptedData (step keccak_cs ?x s_requested) 1 \<noteq> decryptedData s_requested 1"
    by (simp add: scenario_defs)
  have v: "isRevealed (decryptedData s_revealed 1)" by (simp add: s_revealed_facts)
  note a = reveal_record_write_once [OF h1 h2, of keccak_cs ?xs ?x]
  note b = reveal_record_write_once [OF h1 h3, of keccak_cs ?ys ?x]
  from a u r have c: "reveal_count keccak_cs 1 ?xs s_requested = 1" by simp
  from a d have e: "reveals 1 ?x s_requested" by blast
  from b v have f: "decryptedData (exec keccak_cs ?ys s_revealed) 1 = decryptedData s_revealed 1"
    by blast
  from h1 h2 u r c d e v f show ?thesis by blast
qed

text \<open>
  C2. The claim is that a successful \<^verbatim>\<open>decryptLoadSum\<close> stores the decoded sum and marks the
  accumulator as revealed, and rejects a second callback for a settled request. In the
  source the call succeeds on a mapped request id, a valid proof and a resolvable key, and
  returns the storage exactly as it was: the decoded sum is dropped. The same callback
  delivered a second time succeeds again.
\<close>

theorem decryptLoadSum_discards_sum:
  "requestToDataId s_sum_requested 1 = keccak_cs ''central_system''
   \<and> getSystemFromHash keccak_cs (keccak_cs ''central_system'') s_sum_requested = Inr ''central_system''
   \<and> encryptedLoadSum s_sum_requested ''central_system'' = Enc 5
   \<and> decryptLoadSum keccak_cs 1 (Some 5) True s_sum_requested = Inr s_sum_requested
   \<and> step keccak_cs (SumRevealCallback 1 (Some 5) True) s_sum_requested = s_sum_requested
   \<and> decryptLoadSum keccak_cs 1 (Some 5) True
        (step keccak_cs (SumRevealCallback 1 (Some 5) True) s_sum_requested) = Inr s_sum_requested"
proof -
  have g: "getSystemFromHash keccak_cs (keccak_cs ''central_system'') s_sum_requested = Inr ''central_system''"
    by (simp add: getSystemFromHash_def s_sum_requested_facts)
  have d: "decryptLoadSum keccak_cs 1 (Some 5) True s_sum_requested = Inr s_sum_requested"
    by (simp add: decryptLoadSum_def s_sum_requested_facts(1) g)
  have e: "step keccak_cs (SumRevealCallback 1 (Some 5) True) s_sum_requested = s_sum_requested"
    by (simp add: step_def d)
  from g d e s_sum_requested_facts(1,3) show ?thesis by simp
qed

text \<open>
  C3, as the source has it. \<^verbatim>\<open>requestEnergyDataDecryption\<close> fails with \<open>AlreadyRevealed\<close>
  exactly when the record of the data id is revealed, and then changes nothing. While the
  record is not revealed the call succeeds, also when a request for the same id is
  outstanding: it maps the new request id to the data id, keeps every other entry of the
  request mapping, and leaves the reveal records and the accumulators alone.
\<close>

theorem requestReveal_guard:
  "(isRevealed (decryptedData s dataId) \<longrightarrow>
      requestEnergyDataDecryption a dataId reqId s = Inl AlreadyRevealed
      \<and> step H (RequestReveal a dataId reqId) s = s)
   \<and> (\<not> isRevealed (decryptedData s dataId) \<longrightarrow>
      \<not> isl (requestEnergyDataDecryption a dataId reqId s)
      \<and> requestToDataId (step H (RequestReveal a dataId reqId) s) = (requestToDataId s)(reqId := dataId)
      \<and> decryptedData (step H (RequestReveal a dataId reqId) s) = decryptedData s
      \<and> encryptedLoadSum (step H (RequestReveal a dataId reqId) s) = encryptedLoadSum s)"
  by (simp add: requestEnergyDataDecryption_def onlyTenant_def step_def)

theorem requestReveal_guard_witness:
  "isRevealed (decryptedData s_revealed 1)
   \<and> requestEnergyDataDecryption 7 1 1 s_revealed = Inl AlreadyRevealed
   \<and> step keccak_cs (RequestReveal 7 1 1) s_revealed = s_revealed
   \<and> \<not> isRevealed (decryptedData s_requested 1)
   \<and> \<not> isl (requestEnergyDataDecryption 7 1 1 s_requested)
   \<and> requestToDataId (step keccak_cs (RequestReveal 7 1 1) s_requested) = (requestToDataId s_requested)(1 := 1)
   \<and> decryptedData (step keccak_cs (RequestReveal 7 1 1) s_requested) = decryptedData s_requested"
proof -
  have v: "isRevealed (decryptedData s_revealed 1)" by (simp add: s_revealed_facts)
  have u: "\<not> isRevealed (decryptedData s_requested 1)" by (simp add: s_requested_facts)
  from requestReveal_guard [of s_revealed 1 7 1 keccak_cs] v
       requestReveal_guard [of s_requested 1 7 1 keccak_cs] u
  show ?thesis by blast
qed

text \<open>
  As written, the claim fails: after one submission and one request (request id 0), with
  no callback yet, a second request for id 1 succeeds and the request ids 0 and 1 are both
  mapped to 1.
\<close>

theorem requestReveal_second_request_counterexample:
  "requestToDataId s_requested 0 = 1
   \<and> \<not> isRevealed (decryptedData s_requested 1)
   \<and> \<not> isl (requestEnergyDataDecryption 7 1 1 s_requested)
   \<and> requestToDataId (step keccak_cs (RequestReveal 7 1 1) s_requested) 0 = 1
   \<and> requestToDataId (step keccak_cs (RequestReveal 7 1 1) s_requested) 1 = 1"
  by (simp add: scenario_defs)

text \<open>
  C4. When \<^verbatim>\<open>FHE.checkSignatures\<close> fails inside \<^verbatim>\<open>decryptEnergyData\<close> for a request id that
  is mapped to a record not yet revealed, the call fails with \<open>InvalidProof\<close> and the
  transaction leaves the whole storage as it was (so no accumulator is created or
  updated); in a storage reached by a trace from the initial one, the target record still
  holds zero plaintexts and \<open>isRevealed = False\<close>.
\<close>

theorem failed_proof_changes_nothing:
  assumes "requestToDataId s requestId \<noteq> 0"
    and "\<not> isRevealed (decryptedData s (requestToDataId s requestId))"
  shows "decryptEnergyData requestId cleartexts False s = Inl InvalidProof
     \<and> step H (RevealCallback requestId cleartexts False) s = s
     \<and> (s = exec H xs init \<longrightarrow>
          decryptedData (step H (RevealCallback requestId cleartexts False) s)
            (requestToDataId s requestId) = \<lparr>tenantUsage = 0, systemLoad = 0, isRevealed = False\<rparr>)"
proof -
  have a: "decryptEnergyData requestId cleartexts False s = Inl InvalidProof"
    using assms by (simp add: decryptEnergyData_def)
  have b: "step H (RevealCallback requestId cleartexts False) s = s"
    by (simp add: step_def a)
  have c: "decryptedData (step H (RevealCallback requestId cleartexts False) s)
            (requestToDataId s requestId) = \<lparr>tenantUsage = 0, systemLoad = 0, isRevealed = False\<rparr>"
    if e: "s = exec H xs init"
  proof -
    note unrevealed_zero [of H xs "requestToDataId s requestId", folded e]
    from this [OF assms(2)] show ?thesis
      by (simp only: b zeroDecrypted_def)
  qed
  from a b c show ?thesis by blast
qed

theorem failed_proof_changes_nothing_witness:
  "requestToDataId s_requested 0 \<noteq> 0
   \<and> \<not> isRevealed (decryptedData s_requested (requestToDataId s_requested 0))
   \<and> s_requested = exec keccak_cs [Submit (Enc 3) (Enc 4) (Enc 5) 100, RequestReveal 7 1 0] init
   \<and> decryptEnergyData 0 (Some [3, 4, 5]) False s_requested = Inl InvalidProof
   \<and> step keccak_cs (RevealCallback 0 (Some [3, 4, 5]) False) s_requested = s_requested
   \<and> decryptedData (step keccak_cs (RevealCallback 0 (Some [3, 4, 5]) False) s_requested) 1
       = \<lparr>tenantUsage = 0, systemLoad = 0, isRevealed = False\<rparr>"
proof -
  note m = s_requested_facts(2)
  have h1: "requestToDataId s_requested 0 \<noteq> 0" unfolding m by simp
  have h2: "\<not> isRevealed (decryptedData s_requested (requestToDataId s_requested 0))"
    unfolding m by (simp add: s_requested_facts)
  note c = failed_proof_changes_nothing [OF h1 h2, of "Some [3, 4, 5]" keccak_cs
      "[Submit (Enc 3) (Enc 4) (Enc 5) 100, RequestReveal 7 1 0]", unfolded m]
  from c s_requested_def h1 h2 show ?thesis by blast
qed

text \<open>
  C5, as the source has it. \<^verbatim>\<open>decryptEnergyData\<close> fails with \<open>UnknownRequest\<close> and the
  transaction changes nothing whenever the request id is mapped to 0; that is the case of
  every request id that no successful \<^verbatim>\<open>requestEnergyDataDecryption\<close> or
  \<^verbatim>\<open>requestLoadSumDecryption\<close> of the trace has recorded (a forged id).
\<close>

theorem unknown_request_rejected:
  "(requestToDataId s q = 0 \<longrightarrow>
      decryptEnergyData q c ok s = Inl UnknownRequest \<and> step H (RevealCallback q c ok) s = s)
   \<and> (\<not> recorded H q xs init \<longrightarrow>
      decryptEnergyData q c ok (exec H xs init) = Inl UnknownRequest
      \<and> step H (RevealCallback q c ok) (exec H xs init) = exec H xs init)"
proof -
  have a: "decryptEnergyData q c ok t = Inl UnknownRequest \<and> step H (RevealCallback q c ok) t = t"
    if "requestToDataId t q = 0" for t
    using that by (simp add: decryptEnergyData_def step_def)
  have "requestToDataId (exec H xs init) q = 0" if "\<not> recorded H q xs init"
    using exec_requestToDataId [OF that] by (simp add: init_def)
  with a [of s] a [of "exec H xs init"] show ?thesis by blast
qed

theorem unknown_request_rejected_witness:
  "requestToDataId s_requested 42 = 0
   \<and> decryptEnergyData 42 (Some [3, 4, 5]) True s_requested = Inl UnknownRequest
   \<and> step keccak_cs (RevealCallback 42 (Some [3, 4, 5]) True) s_requested = s_requested
   \<and> \<not> recorded keccak_cs 42
        [Submit (Enc 3) (Enc 4) (Enc 5) 100, RequestReveal 7 1 0, RevealCallback 0 (Some [3, 4, 5]) True,
         RequestSumReveal ''central_system'' 1] init
   \<and> decryptEnergyData 42 (Some [3, 4, 5]) True (exec keccak_cs
        [Submit (Enc 3) (Enc 4) (Enc 5) 100, RequestReveal 7 1 0, RevealCallback 0 (Some [3, 4, 5]) True,
         RequestSumReveal ''central_system'' 1] init) = Inl UnknownRequest"
proof -
  let ?xs = "[Submit (Enc 3) (Enc 4) (Enc 5) 100, RequestReveal 7 1 0, RevealCallback 0 (Some [3, 4, 5]) True,
         RequestSumReveal ''central_system'' 1]"
  have z: "requestToDataId s_requested 42 = 0" by (simp add: scenario_defs)
  have n: "\<not> recorded keccak_cs 42 ?xs init" by simp
  from unknown_request_rejected [of s_requested 42 "Some [3, 4, 5]" True keccak_cs ?xs] z n
  show ?thesis by blast
qed

text \<open>
  As written, the claim fails for a request id recorded only by
  \<^verbatim>\<open>requestLoadSumDecryption\<close>: the id is mapped to the hash of the key, which is not 0, and
  \<^verbatim>\<open>decryptEnergyData\<close> takes the hash for a data id. With a proof that does not verify the
  call fails with \<open>InvalidProof\<close>, not \<open>UnknownRequest\<close>; with one that verifies it succeeds,
  reveals the record stored under the hash and adds to the accumulator.
\<close>

theorem sum_request_id_accepted_counterexample:
  "requestToDataId s_requested 1 = 0
   \<and> requestToDataId s_revealed 1 = 0
   \<and> requestToDataId s_sum_requested 1 = keccak_cs ''central_system''
   \<and> decryptEnergyData 1 (Some [1, 2, 3]) False s_sum_requested = Inl InvalidProof
   \<and> \<not> isl (decryptEnergyData 1 (Some [1, 2, 3]) True s_sum_requested)
   \<and> \<not> isRevealed (decryptedData s_sum_requested (keccak_cs ''central_system''))
   \<and> isRevealed (decryptedData (step keccak_cs (RevealCallback 1 (Some [1, 2, 3]) True) s_sum_requested)
         (keccak_cs ''central_system''))
   \<and> encryptedLoadSum s_sum_requested ''central_system'' = Enc 5
   \<and> encryptedLoadSum (step keccak_cs (RevealCallback 1 (Some [1, 2, 3]) True) s_sum_requested)
         ''central_system'' = Enc 8"
  by (simp add: scenario_defs)

text \<open>
  C6. Along every trace of calls from the initial storage, the ids announced by the
  successful submissions are 1, 2, 3, ... in order, up to the submission counter: the
  first is 1, each next one is the previous plus one, none is reused or skipped. Every
  submission succeeds (fewer than \<open>2 ^ 256\<close> of them fit in a trace), so there are as many
  ids as submit calls.
\<close>

theorem submission_ids_sequential:
  "map unat (submittedIds (events (exec H xs init))) = [1..<Suc (unat (dataCount (exec H xs init)))]
   \<and> (length (filter isSubmit xs) < 2 ^ 256 \<longrightarrow>
        length (submittedIds (events (exec H xs init))) = length (filter isSubmit xs))"
proof -
  have i: "ids_ok init" by (simp add: ids_ok_def init_def)
  have a: "map unat (submittedIds (events (exec H xs init))) = [1..<Suc (unat (dataCount (exec H xs init)))]"
    using ids_ok_exec[OF i, of H xs] by (simp add: ids_ok_def)
  have "length (map unat (submittedIds (events (exec H xs init)))) = unat (dataCount (exec H xs init))"
    unfolding a by simp
  then have l: "length (submittedIds (events (exec H xs init))) = unat (dataCount (exec H xs init))"
    by simp
  have "length (filter isSubmit xs) < 2 ^ 256 \<Longrightarrow>
      unat (dataCount (exec H xs init)) = length (filter isSubmit xs)"
    using dataCount_exec[of init xs H] by (simp add: init_def)
  with a l show ?thesis by simp
qed

theorem submission_ids_sequential_witness:
  "length (filter isSubmit
      [Submit (Enc 3) (Enc 4) (Enc 5) 100, RequestReveal 7 1 0, Submit (Enc 6) (Enc 7) (Enc 8) 101,
       RevealCallback 0 (Some [3, 4, 5]) True, Submit (Enc 9) (Enc 10) (Enc 11) 102]) < 2 ^ 256
   \<and> length (submittedIds (events (exec keccak_cs
      [Submit (Enc 3) (Enc 4) (Enc 5) 100, RequestReveal 7 1 0, Submit (Enc 6) (Enc 7) (Enc 8) 101,
       RevealCallback 0 (Some [3, 4, 5]) True, Submit (Enc 9) (Enc 10) (Enc 11) 102] init))) = 3
   \<and> submittedIds (events (exec keccak_cs
      [Submit (Enc 3) (Enc 4) (Enc 5) 100, RequestReveal 7 1 0, Submit (Enc 6) (Enc 7) (Enc 8) 101,
       RevealCallback 0 (Some [3, 4, 5]) True, Submit (Enc 9) (Enc 10) (Enc 11) 102] init)) = [1, 2, 3]"
proof -
  let ?xs = "[Submit (Enc 3) (Enc 4) (Enc 5) 100, RequestReveal 7 1 0, Submit (Enc 6) (Enc 7) (Enc 8) 101,
       RevealCallback 0 (Some [3, 4, 5]) True, Submit (Enc 9) (Enc 10) (Enc 11) 102]"
  have h: "length (filter isSubmit ?xs) < 2 ^ 256" by simp
  have k: "length (filter isSubmit ?xs) = 3" by simp
  from submission_ids_sequential [of keccak_cs ?xs] h
  have "length (submittedIds (events (exec keccak_cs ?xs init))) = length (filter isSubmit ?xs)"
    by blast
  then have l: "length (submittedIds (events (exec keccak_cs ?xs init))) = 3"
    unfolding k .
  have e: "submittedIds (events (exec keccak_cs ?xs init)) = [1, 2, 3]"
    by (simp add: scenario_defs)
  from h l e show ?thesis by blast
qed

text \<open>
  C7. After any trace of calls from the initial storage, \<^verbatim>\<open>getEncryptedLoadSum\<close> of
  \<^verbatim>\<open>central_system\<close> is the encryption of the sum (modulo \<open>2 ^ 32\<close>) of the loads revealed by
  the successful callbacks of the trace (the zero handle when there was none). Two traces
  that reveal the same loads, in whatever order, end with the same sum.
\<close>

theorem load_sum_order_independent:
  "getEncryptedLoadSum ''central_system'' (exec H xs init) =
     Inr (if revealed_loads H xs init = [] then Uninitialized
          else Enc (sum_list (revealed_loads H xs init)))
   \<and> (mset (revealed_loads H ys init) = mset (revealed_loads H xs init) \<longrightarrow>
        getEncryptedLoadSum ''central_system'' (exec H ys init) =
        getEncryptedLoadSum ''central_system'' (exec H xs init))"
proof -
  have a: "getEncryptedLoadSum ''central_system'' (exec H zs init) =
     Inr (if revealed_loads H zs init = [] then Uninitialized
          else Enc (sum_list (revealed_loads H zs init)))" for zs
    by (simp add: getEncryptedLoadSum_def exec_loadSum) (simp add: init_def plain_def)
  have b: "sum_list (revealed_loads H ys init) = sum_list (revealed_loads H xs init)
      \<and> (revealed_loads H ys init = [] \<longleftrightarrow> revealed_loads H xs init = [])"
    if "mset (revealed_loads H ys init) = mset (revealed_loads H xs init)"
    using that by (metis mset_zero_iff sum_mset_sum_list)
  show ?thesis using a [of xs] a [of ys] b by simp
qed

theorem load_sum_order_independent_witness:
  "revealed_loads keccak_cs
     [Submit (Enc 1) (Enc 2) (Enc 10) 100, Submit (Enc 3) (Enc 4) (Enc 20) 101,
      RequestReveal 7 1 0, RequestReveal 8 2 1,
      RevealCallback 0 (Some [1, 2, 10]) True, RevealCallback 1 (Some [3, 4, 20]) True] init = [10, 20]
   \<and> revealed_loads keccak_cs
     [Submit (Enc 1) (Enc 2) (Enc 10) 100, Submit (Enc 3) (Enc 4) (Enc 20) 101,
      RequestReveal 7 1 0, RequestReveal 8 2 1,
      RevealCallback 1 (Some [3, 4, 20]) True, RevealCallback 0 (Some [1, 2, 10]) True] init = [20, 10]
   \<and> getEncryptedLoadSum ''central_system'' (exec keccak_cs
     [Submit (Enc 1) (Enc 2) (Enc 10) 100, Submit (Enc 3) (Enc 4) (Enc 20) 101,
      RequestReveal 7 1 0, RequestReveal 8 2 1,
      RevealCallback 1 (Some [3, 4, 20]) True, RevealCallback 0 (Some [1, 2, 10]) True] init)
     = getEncryptedLoadSum ''central_system'' (exec keccak_cs
     [Submit (Enc 1) (Enc 2) (Enc 10) 100, Submit (Enc 3) (Enc 4) (Enc 20) 101,
      RequestReveal 7 1 0, RequestReveal 8 2 1,
      RevealCallback 0 (Some [1, 2, 10]) True, RevealCallback 1 (Some [3, 4, 20]) True] init)
   \<and> getEncryptedLoadSum ''central_system'' (exec keccak_cs
     [Submit (Enc 1) (Enc 2) (Enc 10) 100, Submit (Enc 3) (Enc 4) (Enc 20) 101,
      RequestReveal 7 1 0, RequestReveal 8 2 1,
      RevealCallback 0 (Some [1, 2, 10]) True, RevealCallback 1 (Some [3, 4, 20]) True] init) = Inr (Enc 30)"
proof -
  let ?xs = "[Submit (Enc 1) (Enc 2) (Enc 10) 100, Submit (Enc 3) (Enc 4) (Enc 20) 101,
      RequestReveal 7 1 0, RequestReveal 8 2 1,
      RevealCallback 0 (Some [1, 2, 10]) True, RevealCallback 1 (Some [3, 4, 20]) True]"
  let ?ys = "[Submit (Enc 1) (Enc 2) (Enc 10) 100, Submit (Enc 3) (Enc 4) (Enc 20) 101,
      RequestReveal 7 1 0, RequestReveal 8 2 1,
      RevealCallback 1 (Some [3, 4, 20]) True, RevealCallback 0 (Some [1, 2, 10]) True]"
  have x: "revealed_loads keccak_cs ?xs init = [10, 20]" by (simp add: scenario_defs)
  have y: "revealed_loads keccak_cs ?ys init = [20, 10]" by (simp add: scenario_defs)
  have m: "mset (revealed_loads keccak_cs ?ys init) = mset (revealed_loads keccak_cs ?xs init)"
    unfolding x y by (simp add: add_mset_commute)
  note t = load_sum_order_independent [of keccak_cs ?xs ?ys]
  from t m have e: "getEncryptedLoadSum ''central_system'' (exec keccak_cs ?ys init)
      = getEncryptedLoadSum ''central_system'' (exec keccak_cs ?xs init)" by blast
  from t have "getEncryptedLoadSum ''central_system'' (exec keccak_cs ?xs init)
      = Inr (if revealed_loads keccak_cs ?xs init = [] then Uninitialized
          else Enc (sum_list (revealed_loads keccak_cs ?xs init)))" by blast
  then have v: "getEncryptedLoadSum ''central_system'' (exec keccak_cs ?xs init) = Inr (Enc 30)"
    unfolding x by simp
  from x y e v show ?thesis by blast
qed

text \<open>
  C8, as the source has it. \<^verbatim>\<open>getEncryptedLoadSum\<close> never fails and changes nothing: it
  returns what the accumulator mapping holds for the key, which is the zero handle for a
  key that was never initialized. \<^verbatim>\<open>requestLoadSumDecryption\<close> for such a key fails with
  \<open>UnknownSystem\<close> and changes nothing.
\<close>

theorem getEncryptedLoadSum_total:
  "getEncryptedLoadSum systemKey s = Inr (encryptedLoadSum s systemKey)
   \<and> step H (GetSum systemKey) s = s
   \<and> (\<not> FHE_isInitialized (encryptedLoadSum s systemKey) \<longrightarrow>
        getEncryptedLoadSum systemKey s = Inr Uninitialized
        \<and> requestLoadSumDecryption H systemKey reqId s = Inl UnknownSystem
        \<and> step H (RequestSumReveal systemKey reqId) s = s)"
  by (simp add: getEncryptedLoadSum_def requestLoadSumDecryption_def step_def FHE_isInitialized_def)

theorem getEncryptedLoadSum_total_witness:
  "\<not> FHE_isInitialized (encryptedLoadSum s_requested ''central_system'')
   \<and> getEncryptedLoadSum ''central_system'' s_requested = Inr Uninitialized
   \<and> requestLoadSumDecryption keccak_cs ''central_system'' 1 s_requested = Inl UnknownSystem
   \<and> step keccak_cs (RequestSumReveal ''central_system'' 1) s_requested = s_requested
   \<and> getEncryptedLoadSum ''central_system'' s_revealed = Inr (Enc 5)"
proof -
  have u: "\<not> FHE_isInitialized (encryptedLoadSum s_requested ''central_system'')"
    by (simp add: scenario_defs)
  from getEncryptedLoadSum_total [of "''central_system''" s_revealed keccak_cs 1]
  have v: "getEncryptedLoadSum ''central_system'' s_revealed = Inr (Enc 5)"
    by (simp add: s_revealed_facts)
  from getEncryptedLoadSum_total [of "''central_system''" s_requested keccak_cs 1] u v
  show ?thesis by blast
qed

text \<open>
  As written, the claim fails: in the initial storage no accumulator is initialized, and
  the read of \<^verbatim>\<open>central_system\<close> returns the zero handle instead of failing.
\<close>

theorem getEncryptedLoadSum_uninitialized_counterexample:
  "\<not> FHE_isInitialized (encryptedLoadSum init ''central_system'')
   \<and> getEncryptedLoadSum ''central_system'' init = Inr Uninitialized"
  by (simp add: getEncryptedLoadSum_def init_def FHE_isInitialized_def)

text \<open>
  C9, as the source has it. \<^verbatim>\<open>getDecryptedEnergyData\<close> never fails and changes nothing: it
  returns the three fields of the record stored under the id. After any trace from the
  initial storage every record that is not revealed, of a submission not yet decrypted or of an id that was never
  assigned, reads as zero usage, zero load and \<open>isRevealed = False\<close>.
\<close>

theorem getDecryptedEnergyData_total:
  "getDecryptedEnergyData dataId s =
     Inr (tenantUsage (decryptedData s dataId), systemLoad (decryptedData s dataId),
          isRevealed (decryptedData s dataId))
   \<and> step H (GetReveal dataId) s = s
   \<and> (s = exec H xs init \<longrightarrow> \<not> isRevealed (decryptedData s dataId) \<longrightarrow>
        getDecryptedEnergyData dataId s = Inr (0, 0, False))"
proof -
  have a: "getDecryptedEnergyData dataId s =
     Inr (tenantUsage (decryptedData s dataId), systemLoad (decryptedData s dataId),
          isRevealed (decryptedData s dataId))"
    by (simp add: getDecryptedEnergyData_def Let_def)
  have b: "step H (GetReveal dataId) s = s"
    by (simp add: step_def a)
  have c: "getDecryptedEnergyData dataId s = Inr (0, 0, False)"
    if e: "s = exec H xs init" and u: "\<not> isRevealed (decryptedData s dataId)"
  proof -
    note unrevealed_zero [of H xs dataId, folded e]
    from this [OF u] have "decryptedData s dataId = zeroDecrypted" .
    then show ?thesis by (simp add: a zeroDecrypted_def)
  qed
  from a b c show ?thesis by blast
qed

theorem getDecryptedEnergyData_total_witness:
  "s_requested = exec keccak_cs [Submit (Enc 3) (Enc 4) (Enc 5) 100, RequestReveal 7 1 0] init
   \<and> \<not> isRevealed (decryptedData s_requested 1)
   \<and> getDecryptedEnergyData 1 s_requested = Inr (0, 0, False)
   \<and> step keccak_cs (GetReveal 1) s_requested = s_requested"
proof -
  have u: "\<not> isRevealed (decryptedData s_requested 1)" by (simp add: s_requested_facts)
  from getDecryptedEnergyData_total [of 1 s_requested keccak_cs
      "[Submit (Enc 3) (Enc 4) (Enc 5) 100, RequestReveal 7 1 0]"] u s_requested_def
  show ?thesis by blast
qed

text \<open>
  As written, the claim fails: with one submission, the reads of id 0 and of id 2 (above
  the counter) return zeros instead of failing.
\<close>

theorem getDecryptedEnergyData_unknown_id_counterexample:
  "dataCount s_requested = 1
   \<and> getDecryptedEnergyData 0 s_requested = Inr (0, 0, False)
   \<and> getDecryptedEnergyData 2 s_requested = Inr (0, 0, False)"
  by (simp add: scenario_defs)

text \<open>
  C10. \<^verbatim>\<open>requestEnergyDataDecryption\<close> does not depend on the caller: the modifier
  \<^verbatim>\<open>onlyTenant\<close> runs the body and checks nothing, so for every data id and any two callers
  the call gives the same result (the same failure or the same storage), and so does the
  transaction.
\<close>

theorem requestReveal_ignores_caller:
  "requestEnergyDataDecryption a dataId reqId s = requestEnergyDataDecryption b dataId reqId s
   \<and> step H (RequestReveal a dataId reqId) s = step H (RequestReveal b dataId reqId) s"
  by (simp add: requestEnergyDataDecryption_def onlyTenant_def step_def)

end
